theory Spec2Isabelle
  imports Complex_Main "HOL-Library.Multiset" "HOL-Library.Log_Nat"
begin

section \<open>FIFO capital-gains calculator (backend/calculator/tax\_calculator.py)\<close>

text \<open>
  The calculator works on Python floats. They are idealised here as exact rationals
  (\<open>rat\<close>): every product, difference and comparison of the source is kept, rounding is
  not modelled. A \<open>datetime\<close> is the number of microseconds since a fixed midnight, so
  that \<open>(a - b).days\<close> is floor division by the length of a day.
\<close>

subsection \<open>Data model\<close>

type_synonym datetime = int

definition timedelta_days :: "int \<Rightarrow> int" where
  \<comment> \<open>\<open>timedelta.days\<close>: whole days, rounded towards minus infinity\<close>
  "timedelta_days us = us div 86400000000"

definition date_of :: "datetime \<Rightarrow> int" where
  \<comment> \<open>\<open>datetime.date()\<close>: the calendar day, as a day number\<close>
  "date_of d = d div 86400000000"

text \<open>A transaction dict as the parser builds it; the calculator reads five of the keys.\<close>

record transaction =
  tx_date :: datetime
  tx_type :: string
  tx_symbol :: string
  tx_amount :: rat
  tx_price_usd :: rat
  tx_fee_usd :: rat
  tx_price_per_unit :: rat

record tax_lot =
  lot_date :: datetime
  lot_amount :: rat
  lot_original_amount :: rat
  lot_price_per_unit :: rat
  lot_symbol :: string
  lot_cost_basis :: rat

definition TaxLot :: "datetime \<Rightarrow> rat \<Rightarrow> rat \<Rightarrow> string \<Rightarrow> tax_lot" where
  "TaxLot date amount price_per_unit symbol =
     \<lparr>lot_date = date, lot_amount = amount, lot_original_amount = amount,
      lot_price_per_unit = price_per_unit, lot_symbol = symbol,
      lot_cost_basis = amount * price_per_unit\<rparr>"

record capital_gain =
  cg_sale_date :: datetime
  cg_purchase_date :: datetime
  cg_symbol :: string
  cg_amount :: rat
  cg_cost_basis :: rat
  cg_proceeds :: rat
  cg_gain_loss :: rat
  cg_term :: string
  cg_holding_days :: int

definition CapitalGain ::
  "datetime \<Rightarrow> datetime \<Rightarrow> string \<Rightarrow> rat \<Rightarrow> rat \<Rightarrow> rat \<Rightarrow> rat \<Rightarrow> string \<Rightarrow> capital_gain" where
  "CapitalGain sale_date purchase_date symbol amount cost_basis proceeds gain_loss term =
     \<lparr>cg_sale_date = sale_date, cg_purchase_date = purchase_date, cg_symbol = symbol,
      cg_amount = amount, cg_cost_basis = cost_basis, cg_proceeds = proceeds,
      cg_gain_loss = gain_loss, cg_term = term,
      cg_holding_days = timedelta_days (sale_date - purchase_date)\<rparr>"

text \<open>
  The entries of \<open>self.errors\<close> are formatted strings; each is kept as the message it
  is an instance of, with the values the source interpolates.
\<close>

datatype error =
    NoLotsAvailable rat string int
      \<comment> \<open>"Error: Trying to sell {remaining} {symbol} but no lots available on {sale day}"\<close>
  | SymbolMismatch string string
      \<comment> \<open>"Error: Symbol mismatch - trying to sell {symbol} but oldest lot is {lot symbol}"\<close>
  | UnknownTransactionType string
      \<comment> \<open>"Unknown transaction type: {type}"\<close>

record calculator =
  lots :: "tax_lot list"
  capital_gains :: "capital_gain list"
  errors :: "error list"

definition FIFOTaxCalculator :: calculator where
  "FIFOTaxCalculator = \<lparr>lots = [], capital_gains = [], errors = []\<rparr>"

subsection \<open>Processing one transaction\<close>

definition eps :: rat where
  \<comment> \<open>the literal 0.00000001 of both comparisons\<close>
  "eps = 1 / 100000000"

definition process_buy :: "calculator \<Rightarrow> transaction \<Rightarrow> calculator" where
  "process_buy c transaction =
     c\<lparr>lots := lots c @
          [TaxLot (tx_date transaction) (tx_amount transaction)
             (tx_price_per_unit transaction) (tx_symbol transaction)]\<rparr>"

text \<open>
  One pass through the body of the \<open>while\<close> loop of \<open>_process_sell\<close>, entered with the
  guard true. \<open>Stop\<close> is the \<open>break\<close>; \<open>Again\<close> returns to the guard, by \<open>continue\<close> or
  by reaching the end of the body.
\<close>

datatype loop_exit = Stop calculator | Again calculator rat

definition sell_body :: "calculator \<Rightarrow> transaction \<Rightarrow> rat \<Rightarrow> loop_exit" where
  "sell_body c transaction remaining_to_sell =
     (case lots c of
        [] \<Rightarrow>
          Stop (c\<lparr>errors := errors c @
                  [NoLotsAvailable remaining_to_sell (tx_symbol transaction)
                     (date_of (tx_date transaction))]\<rparr>)
      | oldest_lot # rest \<Rightarrow>
          if lot_symbol oldest_lot \<noteq> tx_symbol transaction then
            Again (c\<lparr>errors := errors c @
                      [SymbolMismatch (tx_symbol transaction) (lot_symbol oldest_lot)],
                    lots := rest\<rparr>)
              remaining_to_sell
          else
            let amount_from_lot = min remaining_to_sell (lot_amount oldest_lot);
                cost_basis = amount_from_lot * lot_price_per_unit oldest_lot;
                proceeds = amount_from_lot * tx_price_per_unit transaction;
                gain_loss = proceeds - cost_basis;
                holding_days = timedelta_days (tx_date transaction - lot_date oldest_lot);
                term = (if holding_days > 365 then ''long'' else ''short'');
                capital_gain =
                  CapitalGain (tx_date transaction) (lot_date oldest_lot)
                    (tx_symbol transaction) amount_from_lot cost_basis proceeds gain_loss term;
                oldest_lot' = oldest_lot\<lparr>lot_amount := lot_amount oldest_lot - amount_from_lot\<rparr>
            in Again (c\<lparr>capital_gains := capital_gains c @ [capital_gain],
                        lots := (if lot_amount oldest_lot' < eps then rest
                                 else oldest_lot' # rest)\<rparr>)
                 (remaining_to_sell - amount_from_lot))"

function sell_loop :: "calculator \<Rightarrow> transaction \<Rightarrow> rat \<Rightarrow> calculator" where
  "sell_loop c transaction remaining_to_sell =
     (if remaining_to_sell > eps then
        (case sell_body c transaction remaining_to_sell of
           Stop c' \<Rightarrow> c'
         | Again c' remaining' \<Rightarrow> sell_loop c' transaction remaining')
      else c)"
  by pat_completeness auto
termination
proof (relation "measure (\<lambda>(c, t, r). if r > eps then Suc (length (lots c)) else 0)")
  show "wf (measure (\<lambda>(c, t, r). if r > eps then Suc (length (lots c)) else 0))"
    by simp
next
  fix c :: calculator and transaction :: transaction and remaining_to_sell c' remaining'
  assume guard: "eps < remaining_to_sell"
    and body: "sell_body c transaction remaining_to_sell = Again c' remaining'"
  have "(if remaining' > eps then Suc (length (lots c')) else 0) < Suc (length (lots c))"
    using guard body
    by (auto simp: sell_body_def Let_def min_def eps_def split: list.splits if_splits)
  with guard
  show "((c', transaction, remaining'), (c, transaction, remaining_to_sell))
          \<in> measure (\<lambda>(c, t, r). if r > eps then Suc (length (lots c)) else 0)"
    by simp
qed

declare sell_loop.simps [simp del]

definition process_sell :: "calculator \<Rightarrow> transaction \<Rightarrow> calculator" where
  "process_sell c transaction = sell_loop c transaction (tx_amount transaction)"

definition process_transaction :: "calculator \<Rightarrow> transaction \<Rightarrow> calculator" where
  "process_transaction c transaction =
     (if tx_type transaction = ''buy'' then process_buy c transaction
      else if tx_type transaction = ''sell'' then process_sell c transaction
      else c\<lparr>errors := errors c @ [UnknownTransactionType (tx_type transaction)]\<rparr>)"

subsection \<open>The summary\<close>

text \<open>
  The summary is a dict whose set of keys depends on the path taken, so it is a map from
  key to value; a key the source does not store is \<open>None\<close>.
\<close>

datatype summary_value =
    Number rat
  | Count nat
  | Gains "capital_gain list"
  | Lots "tax_lot list"
  | Errors "error list"

type_synonym summary = "string \<rightharpoonup> summary_value"

definition generate_summary :: "calculator \<Rightarrow> summary" where
  "generate_summary c =
     (if capital_gains c = [] then
        map_of
          [(''total_gain_loss'', Number 0),
           (''short_term_gain_loss'', Number 0),
           (''long_term_gain_loss'', Number 0),
           (''num_transactions'', Count 0),
           (''errors'', Errors (errors c))]
      else
        let short_term_gains = filter (\<lambda>g. cg_term g = ''short'') (capital_gains c);
            long_term_gains = filter (\<lambda>g. cg_term g = ''long'') (capital_gains c);
            short_term_total = sum_list (map cg_gain_loss short_term_gains);
            long_term_total = sum_list (map cg_gain_loss long_term_gains)
        in map_of
          [(''total_gain_loss'', Number (short_term_total + long_term_total)),
           (''short_term_gain_loss'', Number short_term_total),
           (''long_term_gain_loss'', Number long_term_total),
           (''num_short_term'', Count (length short_term_gains)),
           (''num_long_term'', Count (length long_term_gains)),
           (''num_transactions'', Count (length (capital_gains c))),
           (''capital_gains'', Gains (capital_gains c)),
           (''remaining_lots'', Lots (lots c)),
           (''errors'', Errors (errors c))])"

subsection \<open>A run over a batch\<close>

text \<open>
  \<open>sorted(transactions, key=lambda t: t['date'])\<close> is Python's built-in sort: ascending
  in the key and stable. There is one such order of a list (\<open>sorted_transactions_unique\<close>
  below), and \<open>sort_key\<close> computes it.
\<close>

definition sorted_transactions :: "transaction list \<Rightarrow> transaction list" where
  "sorted_transactions transactions = sort_key tx_date transactions"

text \<open>
  \<open>calculate_taxes\<close> is a method of a calculator that may have run before: it takes the
  calculator as it is and returns the calculator it leaves, with the summary.
\<close>

definition calculate_taxes :: "calculator \<Rightarrow> transaction list \<Rightarrow> calculator \<times> summary" where
  "calculate_taxes self transactions =
     (let reset = self\<lparr>lots := [], capital_gains := [], errors := []\<rparr>;
          done = foldl process_transaction reset (sorted_transactions transactions)
      in (done, generate_summary done))"

subsection \<open>Counting the passes of the matching loop\<close>

text \<open>
  The same loop with a budget of passes through its body: \<open>None\<close> when the budget is
  used up while the guard still holds.
\<close>

fun sell_loop_within :: "nat \<Rightarrow> calculator \<Rightarrow> transaction \<Rightarrow> rat \<Rightarrow> calculator option" where
  "sell_loop_within 0 c transaction remaining_to_sell =
     (if remaining_to_sell > eps then None else Some c)"
| "sell_loop_within (Suc n) c transaction remaining_to_sell =
     (if remaining_to_sell > eps then
        (case sell_body c transaction remaining_to_sell of
           Stop c' \<Rightarrow> Some c'
         | Again c' remaining' \<Rightarrow> sell_loop_within n c' transaction remaining')
      else Some c)"

definition process_transaction_within :: "nat \<Rightarrow> calculator \<Rightarrow> transaction \<Rightarrow> calculator option" where
  "process_transaction_within n c transaction =
     (if tx_type transaction = ''buy'' then Some (process_buy c transaction)
      else if tx_type transaction = ''sell'' then
        sell_loop_within n c transaction (tx_amount transaction)
      else Some (c\<lparr>errors := errors c @ [UnknownTransactionType (tx_type transaction)]\<rparr>))"

fun run_within :: "nat \<Rightarrow> calculator \<Rightarrow> transaction list \<Rightarrow> calculator option" where
  "run_within n c [] = Some c"
| "run_within n c (t # ts) =
     (case process_transaction_within n c t of
        None \<Rightarrow> None
      | Some c' \<Rightarrow> run_within n c' ts)"

definition calculate_taxes_within ::
  "nat \<Rightarrow> calculator \<Rightarrow> transaction list \<Rightarrow> (calculator \<times> summary) option" where
  "calculate_taxes_within n self transactions =
     (let reset = self\<lparr>lots := [], capital_gains := [], errors := []\<rparr>
      in case run_within n reset (sorted_transactions transactions) of
           None \<Rightarrow> None
         | Some done \<Rightarrow> Some (done, generate_summary done))"

subsection \<open>The lots of a batch\<close>

definition lots_created :: "transaction list \<Rightarrow> tax_lot list" where
  \<comment> \<open>one lot for each buy, as \<open>_process_buy\<close> builds it\<close>
  "lots_created transactions =
     map (\<lambda>t. TaxLot (tx_date t) (tx_amount t) (tx_price_per_unit t) (tx_symbol t))
       (filter (\<lambda>t. tx_type t = ''buy'') transactions)"

definition same_lot :: "tax_lot \<Rightarrow> tax_lot" where
  \<comment> \<open>a lot without regard to how much of it is left\<close>
  "same_lot l = l\<lparr>lot_amount := 0\<rparr>"

subsection \<open>The term of a capital gain\<close>

text \<open>
  What \<open>_process_sell\<close> and the constructor of \<open>CapitalGain\<close> establish for a record:
  its \<open>holding_days\<close> are the whole days from purchase to sale, and its term is
  \<open>'long'\<close> above 365 of them and \<open>'short'\<close> otherwise.
\<close>

definition term_by_days :: "capital_gain \<Rightarrow> bool" where
  "term_by_days g \<longleftrightarrow>
     cg_holding_days g = timedelta_days (cg_sale_date g - cg_purchase_date g)
     \<and> cg_term g = (if 365 < cg_holding_days g then ''long'' else ''short'')"

subsection \<open>Batches that differ in their fees only\<close>

definition differ_only_in_fee :: "transaction \<Rightarrow> transaction \<Rightarrow> bool" where
  "differ_only_in_fee a b \<longleftrightarrow> a\<lparr>tx_fee_usd := tx_fee_usd b\<rparr> = b"

section \<open>Properties\<close>

subsection \<open>Unfolding the matching loop\<close>

lemma sell_loop_done: "\<not> eps < r \<Longrightarrow> sell_loop c t r = c"
  by (simp add: sell_loop.simps)

lemma sell_loop_again:
  "eps < r \<Longrightarrow> sell_body c t r = Again c' r' \<Longrightarrow> sell_loop c t r = sell_loop c' t r'"
  by (simp add: sell_loop.simps)

lemma sell_loop_stop:
  "eps < r \<Longrightarrow> sell_body c t r = Stop c' \<Longrightarrow> sell_loop c t r = c'"
  by (simp add: sell_loop.simps)

lemma reset_calculator:
  "c\<lparr>lots := [], capital_gains := [], errors := []\<rparr> = FIFOTaxCalculator"
  by (cases c) (simp add: FIFOTaxCalculator_def)

subsection \<open>Eviction of a lot of another symbol\<close>

text \<open>
  What a pass of the matching loop, and so a whole sell, can change: it adds anomalies
  after those recorded, it adds capital gains of the sell's symbol, each for a lot that
  was on the ledger, and it leaves a tail of the ledger.
\<close>

lemma sell_body_extends:
  "case sell_body c t r of
     Stop c' \<Rightarrow> (\<exists>es. errors c' = errors c @ es) \<and> capital_gains c' = capital_gains c
              \<and> lots c' = lots c
   | Again c' r' \<Rightarrow>
       (\<exists>es. errors c' = errors c @ es)
       \<and> (\<exists>gs. capital_gains c' = capital_gains c @ gs
              \<and> (\<forall>g\<in>set gs. cg_symbol g = tx_symbol t
                     \<and> (\<exists>l\<in>set (lots c). lot_symbol l = cg_symbol g
                            \<and> lot_date l = cg_purchase_date g)))
       \<and> (\<exists>k. map same_lot (lots c') = drop k (map same_lot (lots c)))"
proof (cases "lots c")
  case Nil
  then show ?thesis by (simp add: sell_body_def)
next
  case (Cons l ls)
  show ?thesis
  proof (cases "lot_symbol l = tx_symbol t")
    case False
    have "map same_lot ls = drop 1 (map same_lot (l # ls))" by simp
    then have "\<exists>k. map same_lot ls = drop k (map same_lot (l # ls))" by blast
    with False Cons show ?thesis by (simp add: sell_body_def)
  next
    case True
    have pop: "\<exists>k. map same_lot ls = drop k (map same_lot (l # ls))"
      using drop_Suc_Cons [of 0 "same_lot l" "map same_lot ls"] by (intro exI [of _ 1]) simp
    have keep: "\<exists>k. map same_lot (l\<lparr>lot_amount := a\<rparr> # ls) = drop k (map same_lot (l # ls))" for a
      by (intro exI [of _ 0]) (simp add: same_lot_def)
    from True Cons pop keep show ?thesis
      by (simp add: sell_body_def Let_def CapitalGain_def)
  qed
qed

lemma sell_loop_extends:
  "(\<exists>es. errors (sell_loop c t r) = errors c @ es)
   \<and> (\<exists>gs. capital_gains (sell_loop c t r) = capital_gains c @ gs
          \<and> (\<forall>g\<in>set gs. cg_symbol g = tx_symbol t
                 \<and> (\<exists>l\<in>set (lots c). lot_symbol l = cg_symbol g
                        \<and> lot_date l = cg_purchase_date g)))
   \<and> (\<exists>k. map same_lot (lots (sell_loop c t r)) = drop k (map same_lot (lots c)))"
proof (induction c t r rule: sell_loop.induct)
  case (1 c t r)
  show ?case
  proof (cases "eps < r")
    case False
    have "map same_lot (lots c) = drop 0 (map same_lot (lots c))" by simp
    then have "\<exists>k. map same_lot (lots c) = drop k (map same_lot (lots c))" by blast
    with False show ?thesis by (simp add: sell_loop_done)
  next
    case guard: True
    show ?thesis
    proof (cases "sell_body c t r")
      case (Stop c')
      have "map same_lot (lots c) = drop 0 (map same_lot (lots c))" by simp
      then have "\<exists>k. map same_lot (lots c) = drop k (map same_lot (lots c))" by blast
      with guard Stop sell_body_extends [of c t r] show ?thesis
        by (simp add: sell_loop_stop)
    next
      case (Again c' r')
      from sell_body_extends [of c t r] Again
      obtain es gs k where es: "errors c' = errors c @ es"
        and gs: "capital_gains c' = capital_gains c @ gs"
          "\<forall>g\<in>set gs. cg_symbol g = tx_symbol t
             \<and> (\<exists>l\<in>set (lots c). lot_symbol l = cg_symbol g \<and> lot_date l = cg_purchase_date g)"
        and k: "map same_lot (lots c') = drop k (map same_lot (lots c))"
        by auto
      from "1.IH" [OF guard Again]
      obtain es' gs' k' where es': "errors (sell_loop c' t r') = errors c' @ es'"
        and gs': "capital_gains (sell_loop c' t r') = capital_gains c' @ gs'"
          "\<forall>g\<in>set gs'. cg_symbol g = tx_symbol t
             \<and> (\<exists>l\<in>set (lots c'). lot_symbol l = cg_symbol g \<and> lot_date l = cg_purchase_date g)"
        and k': "map same_lot (lots (sell_loop c' t r')) = drop k' (map same_lot (lots c'))"
        by auto
      have sub: "\<exists>l\<in>set (lots c). lot_symbol l = s \<and> lot_date l = d"
        if "l' \<in> set (lots c')" "lot_symbol l' = s" "lot_date l' = d" for l' s d
      proof -
        from that(1) have "same_lot l' \<in> set (map same_lot (lots c'))" by simp
        with k have "same_lot l' \<in> set (map same_lot (lots c))"
          using in_set_dropD by metis
        then obtain l where "l \<in> set (lots c)" "same_lot l = same_lot l'" by auto
        moreover from this(2) have "lot_symbol l = lot_symbol l'" "lot_date l = lot_date l'"
          by (cases l, cases l', simp add: same_lot_def)+
        ultimately show ?thesis using that by auto
      qed
      have loop: "sell_loop c t r = sell_loop c' t r'"
        using guard Again by (rule sell_loop_again)
      have 1: "\<exists>es. errors (sell_loop c t r) = errors c @ es"
        using es es' loop by simp
      have 2: "\<exists>gs. capital_gains (sell_loop c t r) = capital_gains c @ gs
          \<and> (\<forall>g\<in>set gs. cg_symbol g = tx_symbol t
                 \<and> (\<exists>l\<in>set (lots c). lot_symbol l = cg_symbol g
                        \<and> lot_date l = cg_purchase_date g))"
      proof (intro exI [of _ "gs @ gs'"] conjI ballI)
        show "capital_gains (sell_loop c t r) = capital_gains c @ gs @ gs'"
          using gs(1) gs'(1) loop by simp
      next
        fix g assume "g \<in> set (gs @ gs')"
        then consider "g \<in> set gs" | "g \<in> set gs'" by auto
        then show "cg_symbol g = tx_symbol t" using gs(2) gs'(2) by cases auto
      next
        fix g assume "g \<in> set (gs @ gs')"
        then consider "g \<in> set gs" | "g \<in> set gs'" by auto
        then show "\<exists>l\<in>set (lots c). lot_symbol l = cg_symbol g \<and> lot_date l = cg_purchase_date g"
        proof cases
          case 1
          with gs(2) show ?thesis by blast
        next
          case 2
          with gs'(2) obtain l' where "l' \<in> set (lots c')" "lot_symbol l' = cg_symbol g"
            "lot_date l' = cg_purchase_date g" by blast
          then show ?thesis by (rule sub)
        qed
      qed
      have 3: "\<exists>k. map same_lot (lots (sell_loop c t r)) = drop k (map same_lot (lots c))"
        using k k' loop by (intro exI [of _ "k' + k"]) simp
      from 1 2 3 show ?thesis by blast
    qed
  qed
qed

text \<open>
  C3. A sell of more than \<open>0.00000001\<close> that finds a front lot of another symbol than
  its own runs as it would on the ledger without that lot, with the symbol-mismatch
  anomaly recorded. In its result the anomaly follows the anomalies there before; the
  capital gains added are none of the evicted lot's symbol, each is for a lot behind it;
  the ledger left is a tail of the lots behind it, so the evicted lot does not return.
  The amount to sell is passed on whole: if no lot is behind, the no-lots anomaly
  reports the full amount of the sell, and if the lot behind has the sell's symbol, the
  first capital gain is for the smaller of the full amount and that lot's amount.
\<close>

theorem symbol_mismatch_evicts_front_lot:
  assumes "tx_type t = ''sell''" and "eps < tx_amount t"
    and "lots c = oldest # rest" and "lot_symbol oldest \<noteq> tx_symbol t"
  shows "process_transaction c t =
           process_transaction
             (c\<lparr>errors := errors c @ [SymbolMismatch (tx_symbol t) (lot_symbol oldest)],
                lots := rest\<rparr>) t
       \<and> (\<exists>es. errors (process_transaction c t) =
                  errors c @ SymbolMismatch (tx_symbol t) (lot_symbol oldest) # es)
       \<and> (\<exists>gs. capital_gains (process_transaction c t) = capital_gains c @ gs
              \<and> (\<forall>g\<in>set gs. cg_symbol g \<noteq> lot_symbol oldest
                     \<and> (\<exists>l\<in>set rest. lot_symbol l = cg_symbol g
                            \<and> lot_date l = cg_purchase_date g)))
       \<and> (\<exists>k. map same_lot (lots (process_transaction c t)) = drop k (map same_lot rest))
       \<and> (rest = [] \<longrightarrow>
            process_transaction c t =
              c\<lparr>errors := errors c @
                   [SymbolMismatch (tx_symbol t) (lot_symbol oldest),
                    NoLotsAvailable (tx_amount t) (tx_symbol t) (date_of (tx_date t))],
                 lots := []\<rparr>)
       \<and> (\<forall>next rest'. rest = next # rest' \<and> lot_symbol next = tx_symbol t \<longrightarrow>
            (\<exists>g gs. capital_gains (process_transaction c t) = capital_gains c @ g # gs
               \<and> cg_amount g = min (tx_amount t) (lot_amount next)
               \<and> cg_purchase_date g = lot_date next))"
proof -
  let ?e = "SymbolMismatch (tx_symbol t) (lot_symbol oldest)"
  let ?c = "c\<lparr>errors := errors c @ [?e], lots := rest\<rparr>"
  have sell: "process_transaction c' t = sell_loop c' t (tx_amount t)" for c'
    using assms(1) by (simp add: process_transaction_def process_sell_def)
  have body: "sell_body c t (tx_amount t) = Again ?c (tx_amount t)"
    using assms(3,4) by (simp add: sell_body_def)
  have loop: "sell_loop c t (tx_amount t) = sell_loop ?c t (tx_amount t)"
    using assms(2) body by (rule sell_loop_again)
  then have evict: "process_transaction c t = process_transaction ?c t"
    by (simp only: sell)
  from sell_loop_extends [of ?c t "tx_amount t"]
  obtain es gs k where es: "errors (sell_loop ?c t (tx_amount t)) = errors ?c @ es"
    and gs: "capital_gains (sell_loop ?c t (tx_amount t)) = capital_gains ?c @ gs"
      "\<forall>g\<in>set gs. cg_symbol g = tx_symbol t
         \<and> (\<exists>l\<in>set (lots ?c). lot_symbol l = cg_symbol g \<and> lot_date l = cg_purchase_date g)"
    and k: "map same_lot (lots (sell_loop ?c t (tx_amount t))) = drop k (map same_lot (lots ?c))"
    by blast
  have anomaly: "\<exists>es. errors (process_transaction c t) = errors c @ ?e # es"
    using es by (simp add: sell loop)
  have gains: "\<exists>gs. capital_gains (process_transaction c t) = capital_gains c @ gs
              \<and> (\<forall>g\<in>set gs. cg_symbol g \<noteq> lot_symbol oldest
                     \<and> (\<exists>l\<in>set rest. lot_symbol l = cg_symbol g
                            \<and> lot_date l = cg_purchase_date g))"
  proof (intro exI [of _ gs] conjI ballI)
    show "capital_gains (process_transaction c t) = capital_gains c @ gs"
      using gs(1) by (simp add: sell loop)
  next
    fix g assume "g \<in> set gs"
    with gs(2) have g: "cg_symbol g = tx_symbol t"
      "\<exists>l\<in>set (lots ?c). lot_symbol l = cg_symbol g \<and> lot_date l = cg_purchase_date g"
      by blast+
    from g(1) assms(4) show "cg_symbol g \<noteq> lot_symbol oldest" by simp
    from g(2) show "\<exists>l\<in>set rest. lot_symbol l = cg_symbol g \<and> lot_date l = cg_purchase_date g"
      by simp
  qed
  have ledger: "\<exists>k. map same_lot (lots (process_transaction c t)) = drop k (map same_lot rest)"
    using k by (intro exI [of _ k]) (simp add: sell loop)
  have empty: "process_transaction c t =
      c\<lparr>errors := errors c @
           [?e, NoLotsAvailable (tx_amount t) (tx_symbol t) (date_of (tx_date t))],
         lots := []\<rparr>" if "rest = []"
  proof -
    from that have "sell_body ?c t (tx_amount t) =
        Stop (?c\<lparr>errors := errors ?c @
                [NoLotsAvailable (tx_amount t) (tx_symbol t) (date_of (tx_date t))]\<rparr>)"
      by (simp add: sell_body_def)
    from sell_loop_stop [OF assms(2) this] that show ?thesis
      by (simp add: sell loop)
  qed
  have front: "\<exists>g gs. capital_gains (process_transaction c t) = capital_gains c @ g # gs
               \<and> cg_amount g = min (tx_amount t) (lot_amount next)
               \<and> cg_purchase_date g = lot_date next"
    if "rest = next # rest' \<and> lot_symbol next = tx_symbol t" for "next" rest'
  proof -
    let ?m = "min (tx_amount t) (lot_amount next)"
    let ?g = "CapitalGain (tx_date t) (lot_date next) (tx_symbol t) ?m
        (?m * lot_price_per_unit next) (?m * tx_price_per_unit t)
        (?m * tx_price_per_unit t - ?m * lot_price_per_unit next)
        (if 365 < timedelta_days (tx_date t - lot_date next) then ''long'' else ''short'')"
    from that obtain c2 where
      pass: "sell_body ?c t (tx_amount t) = Again c2 (tx_amount t - ?m)"
      and c2: "capital_gains c2 = capital_gains c @ [?g]"
      by (simp add: sell_body_def Let_def)
    from sell_loop_extends [of c2 t "tx_amount t - ?m"]
    obtain gs2 where "capital_gains (sell_loop c2 t (tx_amount t - ?m)) = capital_gains c2 @ gs2"
      by blast
    with c2 sell_loop_again [OF assms(2) pass]
    have "capital_gains (process_transaction c t) = capital_gains c @ ?g # gs2"
      by (simp add: sell loop)
    moreover have "cg_amount ?g = ?m" "cg_purchase_date ?g = lot_date next"
      by (simp_all add: CapitalGain_def)
    ultimately show ?thesis by blast
  qed
  from evict anomaly gains ledger empty front show ?thesis by blast
qed

theorem symbol_mismatch_evicts_front_lot_witness:
  "process_transaction
     \<lparr>lots = [TaxLot 0 2 3000 ''ETH'', TaxLot 86400000000 1 50000 ''BTC''],
      capital_gains = [], errors = []\<rparr>
     \<lparr>tx_date = 172800000000, tx_type = ''sell'', tx_symbol = ''BTC'', tx_amount = 1,
      tx_price_usd = 60000, tx_fee_usd = 15, tx_price_per_unit = 60000\<rparr>
   = \<lparr>lots = [],
      capital_gains = [CapitalGain 172800000000 86400000000 ''BTC'' 1 50000 60000 10000 ''short''],
      errors = [SymbolMismatch ''BTC'' ''ETH'']\<rparr>"
  using symbol_mismatch_evicts_front_lot
    [of "\<lparr>tx_date = 172800000000, tx_type = ''sell'', tx_symbol = ''BTC'', tx_amount = 1,
          tx_price_usd = 60000, tx_fee_usd = 15, tx_price_per_unit = 60000\<rparr>"
        "\<lparr>lots = [TaxLot 0 2 3000 ''ETH'', TaxLot 86400000000 1 50000 ''BTC''],
          capital_gains = [], errors = []\<rparr>"
        "TaxLot 0 2 3000 ''ETH''" "[TaxLot 86400000000 1 50000 ''BTC'']"]
  by (simp add: eps_def TaxLot_def CapitalGain_def timedelta_days_def process_transaction_def
      process_sell_def sell_loop.simps sell_body_def Let_def)

subsection \<open>Order of processing\<close>

text \<open>
  Any rearrangement of the batch that is ascending in the date and keeps the input
  order among equal dates is the order the model processes.
\<close>

lemma sorted_transactions_unique:
  assumes perm: "mset ys = mset transactions"
    and asc: "sorted (map tx_date ys)"
    and stable: "\<And>d. filter (\<lambda>t. tx_date t = d) ys = filter (\<lambda>t. tx_date t = d) transactions"
  shows "sorted_transactions transactions = ys"
  unfolding sorted_transactions_def
proof (rule properties_for_sort_key [OF perm _ asc])
  fix k
  have swap: "(\<lambda>t. tx_date k = tx_date t) = (\<lambda>t. tx_date t = tx_date k)"
    by (rule ext) (rule eq_commute)
  show "filter (\<lambda>t. tx_date k = tx_date t) ys = filter (\<lambda>t. tx_date k = tx_date t) transactions"
    unfolding swap by (rule stable)
qed

text \<open>
  C7. The batch is processed in the order of a stable sort by date: the order is
  ascending in the date, it is a rearrangement of the input, transactions of one date
  keep their input order, and the run is the fold of \<open>process_transaction\<close> over it.
\<close>

theorem processing_order_stable_by_date:
  "sorted (map tx_date (sorted_transactions transactions))
   \<and> mset (sorted_transactions transactions) = mset transactions
   \<and> (\<forall>d. filter (\<lambda>t. tx_date t = d) (sorted_transactions transactions)
            = filter (\<lambda>t. tx_date t = d) transactions)
   \<and> calculate_taxes c transactions =
       (let done = foldl process_transaction (c\<lparr>lots := [], capital_gains := [], errors := []\<rparr>)
                     (sorted_transactions transactions)
        in (done, generate_summary done))"
  by (simp add: sorted_transactions_def calculate_taxes_def sort_key_stable)

subsection \<open>No state is carried from one run to the next\<close>

text \<open>
  C8. The summary of a run does not depend on the calculator it starts from: every run
  is the run of a new calculator, and a second run on the same calculator with the same
  batch returns what the first returned.
\<close>

theorem calculate_taxes_resets_state:
  "snd (calculate_taxes c transactions) = snd (calculate_taxes c' transactions)
   \<and> calculate_taxes c transactions = calculate_taxes FIFOTaxCalculator transactions
   \<and> calculate_taxes (fst (calculate_taxes c transactions)) transactions
       = calculate_taxes c transactions"
  by (simp add: calculate_taxes_def reset_calculator)

subsection \<open>A sell that finds no lot\<close>

text \<open>Anomalies recorded before a transaction stay in front of those it adds.\<close>

lemma sell_body_errors_prefix:
  "sell_body (c\<lparr>errors := es @ errors c\<rparr>) t r =
     (case sell_body c t r of
        Stop c' \<Rightarrow> Stop (c'\<lparr>errors := es @ errors c'\<rparr>)
      | Again c' r' \<Rightarrow> Again (c'\<lparr>errors := es @ errors c'\<rparr>) r')"
  by (simp add: sell_body_def Let_def split: list.splits)

lemma sell_loop_errors_prefix:
  "sell_loop (c\<lparr>errors := es @ errors c\<rparr>) t r =
     (sell_loop c t r)\<lparr>errors := es @ errors (sell_loop c t r)\<rparr>"
proof (induction c t r rule: sell_loop.induct)
  case (1 c t r)
  show ?case
  proof (cases "eps < r")
    case False
    then show ?thesis by (simp add: sell_loop_done)
  next
    case True
    show ?thesis
    proof (cases "sell_body c t r")
      case (Stop c')
      with True show ?thesis
        by (simp add: sell_loop.simps [of _ t r] sell_body_errors_prefix)
    next
      case (Again c' r')
      with True "1.IH" [of c' r'] show ?thesis
        by (simp add: sell_loop.simps [of _ t r] sell_body_errors_prefix)
    qed
  qed
qed

lemma process_transaction_errors_prefix:
  "process_transaction (c\<lparr>errors := es @ errors c\<rparr>) t =
     (process_transaction c t)\<lparr>errors := es @ errors (process_transaction c t)\<rparr>"
  by (simp add: process_transaction_def process_buy_def process_sell_def
      sell_loop_errors_prefix)

lemma run_errors_prefix:
  "foldl process_transaction (c\<lparr>errors := es @ errors c\<rparr>) ts =
     (foldl process_transaction c ts)\<lparr>errors := es @ errors (foldl process_transaction c ts)\<rparr>"
  by (induction ts arbitrary: c) (simp_all add: process_transaction_errors_prefix)

lemma sell_on_empty_ledger:
  assumes "tx_type t = ''sell''" and "eps < tx_amount t" and "lots c = []"
  shows "process_transaction c t =
           c\<lparr>errors := errors c @
                [NoLotsAvailable (tx_amount t) (tx_symbol t) (date_of (tx_date t))]\<rparr>"
  using assms
  by (simp add: process_transaction_def process_sell_def sell_loop.simps sell_body_def)

text \<open>
  C2, as the code has it. A batch of one sell of more than \<open>0.00000001\<close> leaves one
  anomaly in the summary, which counts no capital gain; the calculator holds no
  capital gain and no lot. The amount that found no lot is kept nowhere: a run that
  starts with such a sell is the run of the transactions after it, with the anomaly in
  front of theirs.
\<close>

theorem single_sell_without_lots:
  assumes "tx_type t = ''sell''" and "eps < tx_amount t"
  shows "snd (calculate_taxes c [t]) ''errors'' =
           Some (Errors [NoLotsAvailable (tx_amount t) (tx_symbol t) (date_of (tx_date t))])
       \<and> snd (calculate_taxes c [t]) ''num_transactions'' = Some (Count 0)
       \<and> capital_gains (fst (calculate_taxes c [t])) = []
       \<and> lots (fst (calculate_taxes c [t])) = []
       \<and> foldl process_transaction FIFOTaxCalculator (t # later) =
           (let done = foldl process_transaction FIFOTaxCalculator later
            in done\<lparr>errors :=
                 NoLotsAvailable (tx_amount t) (tx_symbol t) (date_of (tx_date t))
                   # errors done\<rparr>)"
proof -
  let ?e = "NoLotsAvailable (tx_amount t) (tx_symbol t) (date_of (tx_date t))"
  have step: "process_transaction FIFOTaxCalculator t = FIFOTaxCalculator\<lparr>errors := [?e]\<rparr>"
    using sell_on_empty_ledger [OF assms, of FIFOTaxCalculator]
    by (simp add: FIFOTaxCalculator_def)
  have run: "fst (calculate_taxes c [t]) = FIFOTaxCalculator\<lparr>errors := [?e]\<rparr>"
    by (simp add: calculate_taxes_def sorted_transactions_def reset_calculator step Let_def)
  have summ: "snd (calculate_taxes c [t]) = generate_summary (FIFOTaxCalculator\<lparr>errors := [?e]\<rparr>)"
    by (simp add: calculate_taxes_def sorted_transactions_def reset_calculator step Let_def)
  have e0: "errors FIFOTaxCalculator = []"
    by (simp add: FIFOTaxCalculator_def)
  have "foldl process_transaction FIFOTaxCalculator (t # later) =
      foldl process_transaction
        (FIFOTaxCalculator\<lparr>errors := [?e] @ errors FIFOTaxCalculator\<rparr>) later"
    by (simp add: step e0)
  also have "\<dots> = (foldl process_transaction FIFOTaxCalculator later)
        \<lparr>errors := [?e] @ errors (foldl process_transaction FIFOTaxCalculator later)\<rparr>"
    by (rule run_errors_prefix)
  finally have later: "foldl process_transaction FIFOTaxCalculator (t # later) =
      (foldl process_transaction FIFOTaxCalculator later)
        \<lparr>errors := [?e] @ errors (foldl process_transaction FIFOTaxCalculator later)\<rparr>" .
  have fields: "capital_gains (FIFOTaxCalculator\<lparr>errors := [?e]\<rparr>) = []"
    "lots (FIFOTaxCalculator\<lparr>errors := [?e]\<rparr>) = []"
    "generate_summary (FIFOTaxCalculator\<lparr>errors := [?e]\<rparr>) ''errors'' = Some (Errors [?e])"
    "generate_summary (FIFOTaxCalculator\<lparr>errors := [?e]\<rparr>) ''num_transactions'' = Some (Count 0)"
    by (simp_all add: generate_summary_def FIFOTaxCalculator_def)
  show ?thesis
    unfolding run summ later by (simp add: fields Let_def)
qed

theorem single_sell_without_lots_witness:
  "snd (calculate_taxes FIFOTaxCalculator
      [\<lparr>tx_date = 0, tx_type = ''sell'', tx_symbol = ''BTC'', tx_amount = 1,
        tx_price_usd = 60000, tx_fee_usd = 15, tx_price_per_unit = 60000\<rparr>]) ''errors''
   = Some (Errors [NoLotsAvailable 1 ''BTC'' 0])"
  using single_sell_without_lots
    [of "\<lparr>tx_date = 0, tx_type = ''sell'', tx_symbol = ''BTC'', tx_amount = 1,
        tx_price_usd = 60000, tx_fee_usd = 15, tx_price_per_unit = 60000\<rparr>" FIFOTaxCalculator]
  by (simp add: eps_def date_of_def)

text \<open>
  The claim of C2 fails for a sell of at most \<open>0.00000001\<close>: the loop is not entered
  and no anomaly is recorded.
\<close>

theorem tiny_sell_records_no_anomaly:
  "snd (calculate_taxes FIFOTaxCalculator
      [\<lparr>tx_date = 0, tx_type = ''sell'', tx_symbol = ''BTC'', tx_amount = 1 / 1000000000,
        tx_price_usd = 60000 / 1000000000, tx_fee_usd = 0, tx_price_per_unit = 60000\<rparr>]) ''errors''
   = Some (Errors [])"
  by (simp add: calculate_taxes_def sorted_transactions_def process_transaction_def
      process_sell_def sell_loop.simps eps_def generate_summary_def FIFOTaxCalculator_def Let_def)

subsection \<open>Batches of buys\<close>

text \<open>
  A batch of buys makes no capital gain, so its summary is the short dict of the first
  \<open>return\<close> of \<open>_generate_summary\<close>; the lots are in the calculator only.
\<close>

lemma buys_only_run:
  "\<forall>t\<in>set ts. tx_type t = ''buy'' \<Longrightarrow>
   foldl process_transaction c ts = c\<lparr>lots := lots c @ lots_created ts\<rparr>"
  by (induction ts arbitrary: c)
     (simp_all add: process_transaction_def process_buy_def lots_created_def)

lemma sum_list_sorted_transactions:
  fixes f :: "transaction \<Rightarrow> rat"
  shows "sum_list (map f (sorted_transactions ts)) = sum_list (map f ts)"
proof -
  have "mset (map f (sorted_transactions ts)) = mset (map f ts)"
    by (simp add: sorted_transactions_def)
  then show ?thesis
    by (metis sum_mset_sum_list)
qed

lemma amounts_lots_created:
  "\<forall>t\<in>set ts. tx_type t = ''buy'' \<Longrightarrow>
   map lot_amount (lots_created ts) = map tx_amount ts"
  by (induction ts) (simp_all add: lots_created_def TaxLot_def)

lemma buys_only_summary:
  assumes "\<forall>t\<in>set transactions. tx_type t = ''buy''"
  shows "snd (calculate_taxes c transactions) =
           map_of [(''total_gain_loss'', Number 0), (''short_term_gain_loss'', Number 0),
                   (''long_term_gain_loss'', Number 0), (''num_transactions'', Count 0),
                   (''errors'', Errors [])]"
    and "sum_list (map lot_amount (lots (fst (calculate_taxes c transactions))))
           = sum_list (map tx_amount transactions)"
proof -
  have buys: "\<forall>t\<in>set (sorted_transactions transactions). tx_type t = ''buy''"
    using assms by (simp add: sorted_transactions_def)
  have run: "fst (calculate_taxes c transactions) =
      FIFOTaxCalculator\<lparr>lots := lots_created (sorted_transactions transactions)\<rparr>"
    by (simp add: calculate_taxes_def reset_calculator Let_def buys_only_run [OF buys]
        FIFOTaxCalculator_def)
  have "snd (calculate_taxes c transactions) = generate_summary (fst (calculate_taxes c transactions))"
    by (simp add: calculate_taxes_def Let_def)
  then show "snd (calculate_taxes c transactions) =
           map_of [(''total_gain_loss'', Number 0), (''short_term_gain_loss'', Number 0),
                   (''long_term_gain_loss'', Number 0), (''num_transactions'', Count 0),
                   (''errors'', Errors [])]"
    by (simp add: run generate_summary_def FIFOTaxCalculator_def)
  show "sum_list (map lot_amount (lots (fst (calculate_taxes c transactions))))
           = sum_list (map tx_amount transactions)"
    by (simp add: run amounts_lots_created [OF buys] sum_list_sorted_transactions)
qed

text \<open>
  C1, at a batch of one buy: the summary has no key \<open>remaining_lots\<close>, although the
  ledger of the calculator holds the lot bought.
\<close>

theorem buy_only_summary_lacks_open_lots:
  "snd (calculate_taxes FIFOTaxCalculator
      [\<lparr>tx_date = 0, tx_type = ''buy'', tx_symbol = ''BTC'', tx_amount = 1,
        tx_price_usd = 50000, tx_fee_usd = 10, tx_price_per_unit = 50000\<rparr>]) ''remaining_lots''
     = None
   \<and> lots (fst (calculate_taxes FIFOTaxCalculator
      [\<lparr>tx_date = 0, tx_type = ''buy'', tx_symbol = ''BTC'', tx_amount = 1,
        tx_price_usd = 50000, tx_fee_usd = 10, tx_price_per_unit = 50000\<rparr>]))
     = [TaxLot 0 1 50000 ''BTC'']"
  by (simp add: calculate_taxes_def sorted_transactions_def process_transaction_def
      process_buy_def generate_summary_def FIFOTaxCalculator_def Let_def)

subsection \<open>Termination of a run\<close>

lemma sell_body_shrinks:
  assumes "eps < r" and "sell_body c t r = Again c' r'"
  shows "length (lots c') \<le> length (lots c)"
    and "eps < r' \<Longrightarrow> length (lots c') < length (lots c)"
  using assms
  by (auto simp: sell_body_def Let_def min_def eps_def split: list.splits if_splits)

lemma sell_loop_within_enough:
  "length (lots c) < n \<Longrightarrow> sell_loop_within n c t r = Some (sell_loop c t r)"
proof (induction n arbitrary: c r)
  case 0
  then show ?case by simp
next
  case (Suc n)
  show ?case
  proof (cases "eps < r")
    case False
    then show ?thesis by (simp add: sell_loop_done)
  next
    case guard: True
    show ?thesis
    proof (cases "sell_body c t r")
      case (Stop c')
      with guard show ?thesis by (simp add: sell_loop_stop)
    next
      case (Again c' r')
      show ?thesis
      proof (cases "eps < r'")
        case True
        with sell_body_shrinks(2) [OF guard Again] Suc.prems
        have "length (lots c') < n" by simp
        with Suc.IH [of c' r'] guard Again show ?thesis
          by (simp add: sell_loop_again)
      next
        case False
        then have "sell_loop_within n c' t r' = Some c'"
          by (cases n) simp_all
        with False guard Again show ?thesis
          by (simp add: sell_loop_again sell_loop_done)
      qed
    qed
  qed
qed

lemma length_lots_sell_loop: "length (lots (sell_loop c t r)) \<le> length (lots c)"
proof (induction c t r rule: sell_loop.induct)
  case (1 c t r)
  show ?case
  proof (cases "eps < r")
    case False
    then show ?thesis by (simp add: sell_loop_done)
  next
    case guard: True
    show ?thesis
    proof (cases "sell_body c t r")
      case (Stop c')
      with guard show ?thesis
        by (auto simp: sell_loop_stop sell_body_def Let_def split: list.splits if_splits)
    next
      case (Again c' r')
      with guard "1.IH" [of c' r'] sell_body_shrinks(1) [OF guard Again] show ?thesis
        by (simp add: sell_loop_again)
    qed
  qed
qed

lemma length_lots_process_transaction:
  "length (lots (process_transaction c t)) \<le> Suc (length (lots c))"
  using length_lots_sell_loop [of c t "tx_amount t"]
  by (simp add: process_transaction_def process_buy_def process_sell_def)

lemma process_transaction_within_enough:
  "length (lots c) < n \<Longrightarrow> process_transaction_within n c t = Some (process_transaction c t)"
  by (simp add: process_transaction_within_def process_transaction_def process_sell_def
      sell_loop_within_enough)

lemma run_within_enough:
  "length (lots c) + length ts < n \<Longrightarrow> run_within n c ts = Some (foldl process_transaction c ts)"
proof (induction ts arbitrary: c)
  case Nil
  then show ?case by simp
next
  case (Cons t ts)
  from Cons.prems have "length (lots c) < n" by simp
  then have step: "process_transaction_within n c t = Some (process_transaction c t)"
    by (rule process_transaction_within_enough)
  from Cons.prems length_lots_process_transaction [of c t]
  have "length (lots (process_transaction c t)) + length ts < n" by simp
  then have "run_within n (process_transaction c t) ts
      = Some (foldl process_transaction (process_transaction c t) ts)"
    by (rule Cons.IH)
  with step show ?case by simp
qed

lemma sell_body_progress:
  assumes "\<forall>l\<in>set (lots c). 0 \<le> lot_amount l" and "eps < r"
    and "sell_body c t r = Again c' r'"
  shows "(r' < r \<or> length (lots c') < length (lots c)) \<and> r' \<le> r
         \<and> length (lots c') \<le> length (lots c) \<and> (\<forall>l\<in>set (lots c'). 0 \<le> lot_amount l)"
  using assms
  by (auto simp: sell_body_def Let_def min_def eps_def split: list.splits if_splits)

lemma lots_nonneg_sell_loop:
  "\<forall>l\<in>set (lots c). 0 \<le> lot_amount l \<Longrightarrow> \<forall>l\<in>set (lots (sell_loop c t r)). 0 \<le> lot_amount l"
proof (induction c t r rule: sell_loop.induct)
  case (1 c t r)
  show ?case
  proof (cases "eps < r")
    case False
    with "1.prems" show ?thesis by (simp add: sell_loop_done)
  next
    case guard: True
    show ?thesis
    proof (cases "sell_body c t r")
      case (Stop c')
      with guard "1.prems" show ?thesis
        by (auto simp: sell_loop_stop sell_body_def Let_def split: list.splits if_splits)
    next
      case (Again c' r')
      from sell_body_progress [OF "1.prems" guard Again]
      have "\<forall>l\<in>set (lots c'). 0 \<le> lot_amount l" by simp
      with "1.IH" [OF guard Again] guard Again show ?thesis
        by (simp add: sell_loop_again)
    qed
  qed
qed

lemma lots_nonneg_process_transaction:
  "\<forall>l\<in>set (lots c). 0 \<le> lot_amount l \<Longrightarrow> 0 \<le> tx_amount t \<Longrightarrow>
   \<forall>l\<in>set (lots (process_transaction c t)). 0 \<le> lot_amount l"
  using lots_nonneg_sell_loop [of c t "tx_amount t"]
  by (auto simp: process_transaction_def process_buy_def process_sell_def TaxLot_def)

lemma lots_nonneg_run:
  "\<forall>l\<in>set (lots c). 0 \<le> lot_amount l \<Longrightarrow> \<forall>t\<in>set ts. 0 \<le> tx_amount t \<Longrightarrow>
   \<forall>l\<in>set (lots (foldl process_transaction c ts)). 0 \<le> lot_amount l"
proof (induction ts arbitrary: c)
  case Nil
  then show ?case by simp
next
  case (Cons t ts)
  from Cons.prems have "\<forall>l\<in>set (lots (process_transaction c t)). 0 \<le> lot_amount l"
    by (intro lots_nonneg_process_transaction) simp_all
  with Cons.IH [of "process_transaction c t"] Cons.prems show ?case by simp
qed

text \<open>
  C9. A run needs no more passes through the body of the matching loop, for any of its
  sells, than the batch has transactions plus one: with that budget it returns what
  \<open>calculate_taxes\<close> returns. On a ledger of lots with non-negative amounts, a pass
  that returns to the guard has made the amount to sell smaller or the ledger shorter,
  and has made neither larger; the lots stay non-negative. A batch of non-negative
  amounts reaches such ledgers only.
\<close>

theorem calculate_taxes_terminates:
  "calculate_taxes_within (Suc (length transactions)) c transactions
     = Some (calculate_taxes c transactions)
   \<and> ((\<forall>l\<in>set (lots c0). 0 \<le> lot_amount l) \<and> eps < remaining
        \<and> sell_body c0 t remaining = Again c' remaining' \<longrightarrow>
      (remaining' < remaining \<or> length (lots c') < length (lots c0))
        \<and> remaining' \<le> remaining \<and> length (lots c') \<le> length (lots c0)
        \<and> (\<forall>l\<in>set (lots c'). 0 \<le> lot_amount l))
   \<and> ((\<forall>t\<in>set transactions. 0 \<le> tx_amount t) \<longrightarrow>
      (\<forall>n. \<forall>l\<in>set (lots (foldl process_transaction FIFOTaxCalculator
                                (take n (sorted_transactions transactions)))).
         0 \<le> lot_amount l))"
proof -
  have "run_within (Suc (length transactions)) FIFOTaxCalculator (sorted_transactions transactions)
      = Some (foldl process_transaction FIFOTaxCalculator (sorted_transactions transactions))"
    by (rule run_within_enough) (simp add: FIFOTaxCalculator_def sorted_transactions_def)
  then have total: "calculate_taxes_within (Suc (length transactions)) c transactions
      = Some (calculate_taxes c transactions)"
    by (simp add: calculate_taxes_within_def calculate_taxes_def reset_calculator Let_def)
  have pass: "(remaining' < remaining \<or> length (lots c') < length (lots c0))
        \<and> remaining' \<le> remaining \<and> length (lots c') \<le> length (lots c0)
        \<and> (\<forall>l\<in>set (lots c'). 0 \<le> lot_amount l)"
    if "(\<forall>l\<in>set (lots c0). 0 \<le> lot_amount l) \<and> eps < remaining
        \<and> sell_body c0 t remaining = Again c' remaining'"
    using that sell_body_progress [of c0 remaining t c' remaining'] by blast
  have reach: "\<forall>l\<in>set (lots (foldl process_transaction FIFOTaxCalculator
                                (take n (sorted_transactions transactions)))).
         0 \<le> lot_amount l"
    if nonneg: "\<forall>t\<in>set transactions. 0 \<le> tx_amount t" for n
  proof (rule lots_nonneg_run)
    show "\<forall>l\<in>set (lots FIFOTaxCalculator). 0 \<le> lot_amount l"
      by (simp add: FIFOTaxCalculator_def)
    have "set (take n (sorted_transactions transactions)) \<subseteq> set transactions"
      using set_take_subset [of n "sorted_transactions transactions"]
      by (simp add: sorted_transactions_def)
    with nonneg show "\<forall>t\<in>set (take n (sorted_transactions transactions)). 0 \<le> tx_amount t"
      by blast
  qed
  from total pass reach show ?thesis by blast
qed

theorem calculate_taxes_terminates_witness:
  "calculate_taxes_within 3 FIFOTaxCalculator
     [\<lparr>tx_date = 0, tx_type = ''buy'', tx_symbol = ''BTC'', tx_amount = 1 / 2,
       tx_price_usd = 20000, tx_fee_usd = 5, tx_price_per_unit = 40000\<rparr>,
      \<lparr>tx_date = 86400000000, tx_type = ''sell'', tx_symbol = ''BTC'', tx_amount = 4 / 5,
       tx_price_usd = 48000, tx_fee_usd = 12, tx_price_per_unit = 60000\<rparr>]
   = Some (calculate_taxes FIFOTaxCalculator
     [\<lparr>tx_date = 0, tx_type = ''buy'', tx_symbol = ''BTC'', tx_amount = 1 / 2,
       tx_price_usd = 20000, tx_fee_usd = 5, tx_price_per_unit = 40000\<rparr>,
      \<lparr>tx_date = 86400000000, tx_type = ''sell'', tx_symbol = ''BTC'', tx_amount = 4 / 5,
       tx_price_usd = 48000, tx_fee_usd = 12, tx_price_per_unit = 60000\<rparr>])
   \<and> sell_body \<lparr>lots = [TaxLot 0 (1 / 2) 40000 ''BTC''], capital_gains = [], errors = []\<rparr>
       \<lparr>tx_date = 86400000000, tx_type = ''sell'', tx_symbol = ''BTC'', tx_amount = 4 / 5,
        tx_price_usd = 48000, tx_fee_usd = 12, tx_price_per_unit = 60000\<rparr> (4 / 5)
     = Again \<lparr>lots = [],
              capital_gains = [CapitalGain 86400000000 0 ''BTC'' (1 / 2) 20000 30000 10000 ''short''],
              errors = []\<rparr> (3 / 10)
   \<and> (3 / 10 :: rat) < 4 / 5
   \<and> lots (foldl process_transaction FIFOTaxCalculator (take 1 (sorted_transactions
     [\<lparr>tx_date = 0, tx_type = ''buy'', tx_symbol = ''BTC'', tx_amount = 1 / 2,
       tx_price_usd = 20000, tx_fee_usd = 5, tx_price_per_unit = 40000\<rparr>,
      \<lparr>tx_date = 86400000000, tx_type = ''sell'', tx_symbol = ''BTC'', tx_amount = 4 / 5,
       tx_price_usd = 48000, tx_fee_usd = 12, tx_price_per_unit = 60000\<rparr>])))
     = [TaxLot 0 (1 / 2) 40000 ''BTC'']"
  using calculate_taxes_terminates
    [of "[\<lparr>tx_date = 0, tx_type = ''buy'', tx_symbol = ''BTC'', tx_amount = 1 / 2,
       tx_price_usd = 20000, tx_fee_usd = 5, tx_price_per_unit = 40000\<rparr>,
      \<lparr>tx_date = 86400000000, tx_type = ''sell'', tx_symbol = ''BTC'', tx_amount = 4 / 5,
       tx_price_usd = 48000, tx_fee_usd = 12, tx_price_per_unit = 60000\<rparr>]"
      FIFOTaxCalculator
      "\<lparr>lots = [TaxLot 0 (1 / 2) 40000 ''BTC''], capital_gains = [], errors = []\<rparr>"
      "4 / 5"
      "\<lparr>tx_date = 86400000000, tx_type = ''sell'', tx_symbol = ''BTC'', tx_amount = 4 / 5,
        tx_price_usd = 48000, tx_fee_usd = 12, tx_price_per_unit = 60000\<rparr>"
      "\<lparr>lots = [],
              capital_gains = [CapitalGain 86400000000 0 ''BTC'' (1 / 2) 20000 30000 10000 ''short''],
              errors = []\<rparr>"
      "3 / 10"]
  by (simp add: sell_body_def TaxLot_def CapitalGain_def timedelta_days_def eps_def
      sorted_transactions_def process_transaction_def process_buy_def FIFOTaxCalculator_def
      numeral_3_eq_3)

subsection \<open>Long and short term\<close>

lemma sell_body_term_by_days:
  assumes "\<forall>g\<in>set (capital_gains c). term_by_days g"
  shows "case sell_body c t r of
           Stop c' \<Rightarrow> \<forall>g\<in>set (capital_gains c'). term_by_days g
         | Again c' r' \<Rightarrow> \<forall>g\<in>set (capital_gains c'). term_by_days g"
  using assms
  by (auto simp: sell_body_def Let_def CapitalGain_def term_by_days_def split: list.splits)

lemma sell_loop_term_by_days:
  "\<forall>g\<in>set (capital_gains c). term_by_days g \<Longrightarrow>
   \<forall>g\<in>set (capital_gains (sell_loop c t r)). term_by_days g"
proof (induction c t r rule: sell_loop.induct)
  case (1 c t r)
  show ?case
  proof (cases "eps < r")
    case False
    with "1.prems" show ?thesis by (simp add: sell_loop_done)
  next
    case guard: True
    show ?thesis
    proof (cases "sell_body c t r")
      case (Stop c')
      with guard sell_body_term_by_days [OF "1.prems", of t r] show ?thesis
        by (simp add: sell_loop_stop)
    next
      case (Again c' r')
      with sell_body_term_by_days [OF "1.prems", of t r]
      have "\<forall>g\<in>set (capital_gains c'). term_by_days g" by simp
      with "1.IH" [OF guard Again] guard Again show ?thesis
        by (simp add: sell_loop_again)
    qed
  qed
qed

lemma process_transaction_term_by_days:
  "\<forall>g\<in>set (capital_gains c). term_by_days g \<Longrightarrow>
   \<forall>g\<in>set (capital_gains (process_transaction c t)). term_by_days g"
  using sell_loop_term_by_days [of c t "tx_amount t"]
  by (simp add: process_transaction_def process_buy_def process_sell_def)

lemma run_term_by_days:
  "\<forall>g\<in>set (capital_gains c). term_by_days g \<Longrightarrow>
   \<forall>g\<in>set (capital_gains (foldl process_transaction c ts)). term_by_days g"
proof (induction ts arbitrary: c)
  case Nil
  then show ?case by simp
next
  case (Cons t ts)
  from Cons.prems have "\<forall>g\<in>set (capital_gains (process_transaction c t)). term_by_days g"
    by (rule process_transaction_term_by_days)
  then show ?case
    using Cons.IH [of "process_transaction c t"] by simp
qed

text \<open>
  C6. In every capital gain of a run the holding days are the whole days from the
  purchase to the sale, the term is \<open>'long'\<close> exactly when they are more than 365 and
  \<open>'short'\<close> exactly when they are at most 365. A lot sold 365 days after its purchase
  gives a short-term gain, one sold 366 days after it a long-term gain.
\<close>

theorem term_long_iff_held_over_365_days:
  "(\<forall>g\<in>set (capital_gains (fst (calculate_taxes c transactions))).
      cg_holding_days g = timedelta_days (cg_sale_date g - cg_purchase_date g)
      \<and> (cg_term g = ''long'' \<longleftrightarrow> 365 < cg_holding_days g)
      \<and> (cg_term g = ''short'' \<longleftrightarrow> cg_holding_days g \<le> 365))
   \<and> map (\<lambda>g. (cg_holding_days g, cg_term g))
        (capital_gains (fst (calculate_taxes c
          [\<lparr>tx_date = d, tx_type = ''buy'', tx_symbol = s, tx_amount = 1,
            tx_price_usd = 50000, tx_fee_usd = 10, tx_price_per_unit = 50000\<rparr>,
           \<lparr>tx_date = d + 365 * 86400000000, tx_type = ''sell'', tx_symbol = s, tx_amount = 1,
            tx_price_usd = 60000, tx_fee_usd = 15, tx_price_per_unit = 60000\<rparr>])))
      = [(365, ''short'')]
   \<and> map (\<lambda>g. (cg_holding_days g, cg_term g))
        (capital_gains (fst (calculate_taxes c
          [\<lparr>tx_date = d, tx_type = ''buy'', tx_symbol = s, tx_amount = 1,
            tx_price_usd = 50000, tx_fee_usd = 10, tx_price_per_unit = 50000\<rparr>,
           \<lparr>tx_date = d + 366 * 86400000000, tx_type = ''sell'', tx_symbol = s, tx_amount = 1,
            tx_price_usd = 60000, tx_fee_usd = 15, tx_price_per_unit = 60000\<rparr>])))
      = [(366, ''long'')]"
proof -
  have "\<forall>g\<in>set (capital_gains (foldl process_transaction FIFOTaxCalculator
                   (sorted_transactions transactions))). term_by_days g"
    by (rule run_term_by_days) (simp add: FIFOTaxCalculator_def)
  then have all: "\<forall>g\<in>set (capital_gains (fst (calculate_taxes c transactions))).
      cg_holding_days g = timedelta_days (cg_sale_date g - cg_purchase_date g)
      \<and> (cg_term g = ''long'' \<longleftrightarrow> 365 < cg_holding_days g)
      \<and> (cg_term g = ''short'' \<longleftrightarrow> cg_holding_days g \<le> 365)"
    by (auto simp: calculate_taxes_def reset_calculator Let_def term_by_days_def
        split: if_splits)
  have at_365: "map (\<lambda>g. (cg_holding_days g, cg_term g))
        (capital_gains (fst (calculate_taxes c
          [\<lparr>tx_date = d, tx_type = ''buy'', tx_symbol = s, tx_amount = 1,
            tx_price_usd = 50000, tx_fee_usd = 10, tx_price_per_unit = 50000\<rparr>,
           \<lparr>tx_date = d + 365 * 86400000000, tx_type = ''sell'', tx_symbol = s, tx_amount = 1,
            tx_price_usd = 60000, tx_fee_usd = 15, tx_price_per_unit = 60000\<rparr>])))
      = [(365, ''short'')]"
    by (simp add: calculate_taxes_def sorted_transactions_def reset_calculator
      FIFOTaxCalculator_def process_transaction_def process_buy_def process_sell_def
      sell_loop.simps sell_body_def eps_def TaxLot_def CapitalGain_def Let_def
      timedelta_days_def)
  have at_366: "map (\<lambda>g. (cg_holding_days g, cg_term g))
        (capital_gains (fst (calculate_taxes c
          [\<lparr>tx_date = d, tx_type = ''buy'', tx_symbol = s, tx_amount = 1,
            tx_price_usd = 50000, tx_fee_usd = 10, tx_price_per_unit = 50000\<rparr>,
           \<lparr>tx_date = d + 366 * 86400000000, tx_type = ''sell'', tx_symbol = s, tx_amount = 1,
            tx_price_usd = 60000, tx_fee_usd = 15, tx_price_per_unit = 60000\<rparr>])))
      = [(366, ''long'')]"
    by (simp add: calculate_taxes_def sorted_transactions_def reset_calculator
      FIFOTaxCalculator_def process_transaction_def process_buy_def process_sell_def
      sell_loop.simps sell_body_def eps_def TaxLot_def CapitalGain_def Let_def
      timedelta_days_def)
  from all at_365 at_366 show ?thesis by blast
qed

theorem term_long_iff_held_over_365_days_witness:
  "capital_gains (fst (calculate_taxes FIFOTaxCalculator
          [\<lparr>tx_date = 0, tx_type = ''buy'', tx_symbol = ''BTC'', tx_amount = 1,
            tx_price_usd = 50000, tx_fee_usd = 10, tx_price_per_unit = 50000\<rparr>,
           \<lparr>tx_date = 400 * 86400000000, tx_type = ''sell'', tx_symbol = ''BTC'', tx_amount = 1,
            tx_price_usd = 60000, tx_fee_usd = 15, tx_price_per_unit = 60000\<rparr>]))
     = [CapitalGain (400 * 86400000000) 0 ''BTC'' 1 50000 60000 10000 ''long'']
   \<and> cg_holding_days (CapitalGain (400 * 86400000000) 0 ''BTC'' 1 50000 60000 10000 ''long'') = 400
   \<and> (cg_term (CapitalGain (400 * 86400000000) 0 ''BTC'' 1 50000 60000 10000 ''long'') = ''long'')
   \<and> (365 :: int) < 400"
  using term_long_iff_held_over_365_days
    [of FIFOTaxCalculator
        "[\<lparr>tx_date = 0, tx_type = ''buy'', tx_symbol = ''BTC'', tx_amount = 1,
            tx_price_usd = 50000, tx_fee_usd = 10, tx_price_per_unit = 50000\<rparr>,
           \<lparr>tx_date = 400 * 86400000000, tx_type = ''sell'', tx_symbol = ''BTC'', tx_amount = 1,
            tx_price_usd = 60000, tx_fee_usd = 15, tx_price_per_unit = 60000\<rparr>]"
        0 "''BTC''"]
  by (simp add: calculate_taxes_def sorted_transactions_def reset_calculator
      FIFOTaxCalculator_def process_transaction_def process_buy_def process_sell_def
      sell_loop.simps sell_body_def eps_def TaxLot_def CapitalGain_def Let_def
      timedelta_days_def)

subsection \<open>Fees\<close>

lemma sell_body_ignores_fee: "sell_body c (t\<lparr>tx_fee_usd := f\<rparr>) r = sell_body c t r"
  by (simp add: sell_body_def split: list.splits)

lemma sell_loop_ignores_fee: "sell_loop c (t\<lparr>tx_fee_usd := f\<rparr>) r = sell_loop c t r"
proof (induction c t r rule: sell_loop.induct)
  case (1 c t r)
  show ?case
  proof (cases "eps < r")
    case False
    then show ?thesis by (simp add: sell_loop_done)
  next
    case guard: True
    show ?thesis
    proof (cases "sell_body c t r")
      case (Stop c')
      with guard show ?thesis
        by (simp add: sell_loop_stop sell_body_ignores_fee)
    next
      case (Again c' r')
      with guard "1.IH" [OF guard Again] show ?thesis
        by (simp add: sell_loop_again sell_body_ignores_fee)
    qed
  qed
qed

lemma process_transaction_ignores_fee:
  assumes "differ_only_in_fee a b"
  shows "process_transaction c a = process_transaction c b"
proof -
  from assms have b: "b = a\<lparr>tx_fee_usd := tx_fee_usd b\<rparr>"
    by (simp add: differ_only_in_fee_def)
  have "process_transaction c (a\<lparr>tx_fee_usd := tx_fee_usd b\<rparr>) = process_transaction c a"
    by (simp add: process_transaction_def process_buy_def process_sell_def
        sell_loop_ignores_fee)
  with b show ?thesis by simp
qed

lemma differ_only_in_fee_date: "differ_only_in_fee a b \<Longrightarrow> tx_date a = tx_date b"
  by (cases a, cases b) (simp add: differ_only_in_fee_def)

lemma insort_differ_only_in_fee:
  "list_all2 differ_only_in_fee xs ys \<Longrightarrow> differ_only_in_fee a b \<Longrightarrow>
   list_all2 differ_only_in_fee (insort_key tx_date a xs) (insort_key tx_date b ys)"
proof (induction xs ys rule: list_all2_induct)
  case Nil
  then show ?case by simp
next
  case (Cons x xs y ys)
  from Cons.hyps(1) Cons.prems have "tx_date x = tx_date y" "tx_date a = tx_date b"
    by (simp_all add: differ_only_in_fee_date)
  with Cons show ?case by simp
qed

lemma sorted_differ_only_in_fee:
  "list_all2 differ_only_in_fee xs ys \<Longrightarrow>
   list_all2 differ_only_in_fee (sorted_transactions xs) (sorted_transactions ys)"
  unfolding sorted_transactions_def
  by (induction xs ys rule: list_all2_induct) (simp_all add: insort_differ_only_in_fee)

lemma run_ignores_fee:
  "list_all2 differ_only_in_fee xs ys \<Longrightarrow>
   foldl process_transaction c xs = foldl process_transaction c ys"
proof (induction xs ys arbitrary: c rule: list_all2_induct)
  case Nil
  then show ?case by simp
next
  case (Cons x xs y ys)
  from Cons.hyps(1) have "process_transaction c x = process_transaction c y"
    by (rule process_transaction_ignores_fee)
  with Cons.IH [of "process_transaction c y"] show ?case by simp
qed

text \<open>
  C10. Two batches that agree transaction by transaction in everything but
  \<open>fee_usd\<close> give the same calculator and the same summary.
\<close>

theorem fees_do_not_affect_result:
  assumes "list_all2 differ_only_in_fee transactions transactions'"
  shows "calculate_taxes c transactions = calculate_taxes c transactions'"
  using run_ignores_fee [OF sorted_differ_only_in_fee [OF assms]]
  by (simp add: calculate_taxes_def)

theorem fees_do_not_affect_result_witness:
  "calculate_taxes FIFOTaxCalculator
     [\<lparr>tx_date = 0, tx_type = ''buy'', tx_symbol = ''BTC'', tx_amount = 1,
       tx_price_usd = 50000, tx_fee_usd = 10, tx_price_per_unit = 50000\<rparr>,
      \<lparr>tx_date = 2678400000000, tx_type = ''sell'', tx_symbol = ''BTC'', tx_amount = 1,
       tx_price_usd = 60000, tx_fee_usd = 15, tx_price_per_unit = 60000\<rparr>]
   = calculate_taxes FIFOTaxCalculator
     [\<lparr>tx_date = 0, tx_type = ''buy'', tx_symbol = ''BTC'', tx_amount = 1,
       tx_price_usd = 50000, tx_fee_usd = 0, tx_price_per_unit = 50000\<rparr>,
      \<lparr>tx_date = 2678400000000, tx_type = ''sell'', tx_symbol = ''BTC'', tx_amount = 1,
       tx_price_usd = 60000, tx_fee_usd = 999, tx_price_per_unit = 60000\<rparr>]"
  using fees_do_not_affect_result
    [of "[\<lparr>tx_date = 0, tx_type = ''buy'', tx_symbol = ''BTC'', tx_amount = 1,
       tx_price_usd = 50000, tx_fee_usd = 10, tx_price_per_unit = 50000\<rparr>,
      \<lparr>tx_date = 2678400000000, tx_type = ''sell'', tx_symbol = ''BTC'', tx_amount = 1,
       tx_price_usd = 60000, tx_fee_usd = 15, tx_price_per_unit = 60000\<rparr>]"
      "[\<lparr>tx_date = 0, tx_type = ''buy'', tx_symbol = ''BTC'', tx_amount = 1,
       tx_price_usd = 50000, tx_fee_usd = 0, tx_price_per_unit = 50000\<rparr>,
      \<lparr>tx_date = 2678400000000, tx_type = ''sell'', tx_symbol = ''BTC'', tx_amount = 1,
       tx_price_usd = 60000, tx_fee_usd = 999, tx_price_per_unit = 60000\<rparr>]"
      FIFOTaxCalculator]
  by (simp add: differ_only_in_fee_def)


end
